theory Spec2Isabelle
  imports Main "HOL-Library.Word"
begin

unbundle bit_operations_syntax

section \<open>Utilities\<close>

text \<open>
  JavaScript numbers that only ever hold integers are modelled as \<open>int\<close>; strings
  are \<open>string\<close>, one \<open>char\<close> per UTF-16 code unit, which covers the strings
  whose code units are below 256 (every string literal of the source but one, see
  \<open>ellipsis\<close>).
  \<^verbatim>\<open>const clamp = (n, min, max) => Math.max(min, Math.min(max, n));\<close>
\<close>

definition clamp :: "int \<Rightarrow> int \<Rightarrow> int \<Rightarrow> int" where
  "clamp n mn mx = max mn (min mx n)"

subsection \<open>The number operations \<open>pseudoHash\<close> relies on\<close>

text \<open>
  \<open>ToUint32\<close> is the conversion \<open>x >>> 0\<close> applies: the value modulo \<open>2 ^ 32\<close>.
\<close>

definition ToUint32 :: "int \<Rightarrow> int" where
  "ToUint32 x = uint (word_of_int x :: 32 word)"

text \<open>\<open>a ^ b\<close>, \<open>a << k\<close> and \<open>a >> k\<close> on numbers: 32-bit, signed results.\<close>

definition js_xor :: "int \<Rightarrow> int \<Rightarrow> int" where
  "js_xor a b = sint ((word_of_int a :: 32 word) XOR word_of_int b)"

definition js_shl :: "int \<Rightarrow> nat \<Rightarrow> int" where
  "js_shl a k = sint (push_bit (k mod 32) (word_of_int a :: 32 word))"

definition js_sar :: "int \<Rightarrow> nat \<Rightarrow> int" where
  "js_sar a k = sint (signed_drop_bit (k mod 32) (word_of_int a :: 32 word))"

text \<open>
  A number is a binary64 value, so the product \<open>h1 * 0x01000193\<close> of two integers is
  the exact product rounded to 53 significant bits, ties to even (the products here stay
  far below the largest finite value). \<open>ulp_exp a\<close> is the number of low bits of the
  magnitude \<open>a\<close> that do not fit. Sums and differences of the integers that occur
  are exact.
\<close>

function ulp_exp :: "int \<Rightarrow> nat" where
  "ulp_exp a = (if a < 2 ^ 53 then 0 else Suc (ulp_exp (a div 2)))"
  by pat_completeness auto
termination
  by (relation "measure nat") auto

declare ulp_exp.simps [simp del]

definition round_double :: "int \<Rightarrow> int" where
  "round_double x =
     (let a = \<bar>x\<bar>;
          e = ulp_exp a;
          q = a div 2 ^ e;
          r = a mod 2 ^ e;
          q' = (if 2 ^ e < 2 * r \<or> (2 * r = 2 ^ e \<and> odd q) then q + 1 else q)
      in sgn x * (q' * 2 ^ e))"

definition js_mul :: "int \<Rightarrow> int \<Rightarrow> int" where
  "js_mul a b = round_double (a * b)"

subsection \<open>Number.toString(16) and the \<open>hex\<close> helper\<close>

definition hex_digit :: "int \<Rightarrow> char" where
  "hex_digit d = ''0123456789abcdef'' ! nat d"

function hex_digits :: "int \<Rightarrow> string" where
  "hex_digits n = (if n < 16 then [hex_digit n] else hex_digits (n div 16) @ [hex_digit (n mod 16)])"
  by pat_completeness auto
termination
  by (relation "measure nat") auto

declare hex_digits.simps [simp del]

definition toString16 :: "int \<Rightarrow> string" where
  "toString16 h = (if h < 0 then CHR ''-'' # hex_digits (- h) else hex_digits h)"

text \<open>\<^verbatim>\<open>const hex = (h) => ("00000000" + h.toString(16)).slice(-8);\<close>\<close>

definition hex :: "int \<Rightarrow> string" where
  "hex h = (let s = ''00000000'' @ toString16 h in drop (length s - 8) s)"

subsection \<open>pseudoHash\<close>

text \<open>
  The mixing loop over the code units of the input; \<open>h1\<close> and \<open>h2\<close> are the two
  accumulators, each brought back to an unsigned 32-bit value at the end of an iteration.
\<close>

definition charCodeAt :: "char \<Rightarrow> int" where
  "charCodeAt c = of_char c"

fun hash_loop :: "int \<Rightarrow> int \<Rightarrow> string \<Rightarrow> int \<times> int" where
  "hash_loop h1 h2 [] = (h1, h2)"
| "hash_loop h1 h2 (c # cs) =
     (let h1a = js_xor h1 (charCodeAt c);
          h1b = ToUint32 (js_mul h1a 0x01000193);
          h2a = js_xor h2 (js_shl h2 5 + js_sar h2 2 + charCodeAt c);
          h2b = ToUint32 h2a
      in hash_loop h1b h2b cs)"

text \<open>
  \<^verbatim>\<open>while (out.length < len) out += hex(h1++) + hex(h2--);\<close>
  The increments are plain number arithmetic: nothing wraps them to 32 bits.
\<close>

function emit :: "string \<Rightarrow> int \<Rightarrow> int \<Rightarrow> nat \<Rightarrow> string" where
  "emit out h1 h2 len =
     (if length out < len then emit (out @ hex h1 @ hex h2) (h1 + 1) (h2 - 1) len else out)"
  by pat_completeness auto
termination
  by (relation "measure (\<lambda>(out, h1, h2, len). len - length out)") (auto simp: hex_def)

declare emit.simps [simp del]

definition pseudoHash :: "string \<Rightarrow> nat \<Rightarrow> string" where
  "pseudoHash input len =
     (case hash_loop 0x811c9dc5 0x45d9f3b input of
        (h1, h2) \<Rightarrow> take len (emit [] h1 h2 len))"

text \<open>
  \<^verbatim>\<open>addr.slice(0, prefix) + "..." + addr.slice(-suffix)\<close>, with the one-character
  ellipsis (U+2026) of the source in the middle: it does not fit a \<open>char\<close> and is kept
  here as its three UTF-8 bytes. \<open>slice_last n\<close> is \<open>slice(-n)\<close>, which returns the
  whole string for \<open>n = 0\<close>.
\<close>

definition ellipsis :: string where
  "ellipsis = [char_of (0xE2 :: nat), char_of (0x80 :: nat), char_of (0xA6 :: nat)]"

definition slice_last :: "nat \<Rightarrow> string \<Rightarrow> string" where
  "slice_last n s = (if n = 0 then s else drop (length s - n) s)"

definition shorten :: "string \<Rightarrow> nat \<Rightarrow> nat \<Rightarrow> string" where
  "shorten addr prefix suffix =
     (if addr = [] then [] else take prefix addr @ ellipsis @ slice_last suffix addr)"

text \<open>
  Reading \<open>xs[i]\<close> with a number: \<open>undefined\<close> (here \<open>None\<close>) outside the array.
\<close>

definition js_index :: "'a list \<Rightarrow> int \<Rightarrow> 'a option" where
  "js_index xs i = (if 0 \<le> i \<and> i < int (length xs) then Some (xs ! nat i) else None)"

section \<open>Types\<close>

record WalletApp =
  key :: string
  name :: string
  address :: "string \<Rightarrow> string"
  currency :: string
  decimals :: nat

text \<open>
  The tagged union \<open>Screen\<close>. An \<open>app\<close> read from the catalogue with an index outside
  it is \<open>undefined\<close>, and the optional field \<open>approved\<close> may be absent: both are
  options.
\<close>

datatype Screen =
    SPLASH
  | LOCK string int
  | HOME
  | APPS int
  | ADDRESS "WalletApp option"
  | TX_REVIEW "WalletApp option" int "bool option"
  | SETTINGS int

text \<open>The only read of \<open>approved\<close> is the truth test \<^verbatim>\<open>if (approved)\<close> of the renderer.\<close>

definition is_approved :: "bool option \<Rightarrow> bool" where
  "is_approved a = (a = Some True)"

section \<open>Demo app catalogue\<close>

definition apps :: "WalletApp list" where
  "apps =
    [\<lparr>key = ''btc'', name = ''Bitcoin'',
      address = (\<lambda>seed. ''bc1'' @ pseudoHash (seed @ '':btc'') 36),
      currency = ''BTC'', decimals = 8\<rparr>,
     \<lparr>key = ''eth'', name = ''Ethereum'',
      address = (\<lambda>seed. ''0x'' @ pseudoHash (seed @ '':eth'') 40),
      currency = ''ETH'', decimals = 18\<rparr>,
     \<lparr>key = ''sol'', name = ''Solana'',
      address = (\<lambda>seed. pseudoHash (seed @ '':sol'') 44),
      currency = ''SOL'', decimals = 9\<rparr>]"

section \<open>The component state\<close>

text \<open>
  The four \<open>useState\<close> cells, and the callbacks handed to \<open>setTimeout\<close> that have not
  run yet, each with its delay in milliseconds, in the order they were scheduled. The
  source has three such callbacks: the splash screen's move to the lock screen, the
  move to the home screen after the right PIN, and the clearing of the toast.
\<close>

datatype callback = GotoLock | GotoHome | ClearToast

record DeviceState =
  powered :: bool
  seed :: string
  screen :: Screen
  toast :: "string option"
  timers :: "(nat \<times> callback) list"

definition init :: DeviceState where
  "init = \<lparr>powered = True, seed = pseudoHash ''demo-seed'' 40, screen = SPLASH,
            toast = None, timers = [(800, GotoLock)]\<rparr>"

definition is_splash :: "Screen \<Rightarrow> bool" where
  "is_splash sc = (case sc of SPLASH \<Rightarrow> True | _ \<Rightarrow> False)"

definition setTimeout :: "callback \<Rightarrow> nat \<Rightarrow> DeviceState \<Rightarrow> DeviceState" where
  "setTimeout cb ms s = s\<lparr>timers := timers s @ [(ms, cb)]\<rparr>"

text \<open>
  \<open>setScreen\<close> together with the effect that depends on \<open>screen.id\<close>: when the
  screen stops being the splash screen, the effect's cleanup clears the splash timer.
  No transition of the source enters the splash screen, so the effect never sets a
  second one.
\<close>

definition setScreen :: "Screen \<Rightarrow> DeviceState \<Rightarrow> DeviceState" where
  "setScreen sc s =
     s\<lparr>screen := sc,
       timers := (if is_splash (screen s) \<and> \<not> is_splash sc
                  then filter (\<lambda>t. case snd t of GotoLock \<Rightarrow> False | _ \<Rightarrow> True) (timers s)
                  else timers s)\<rparr>"

definition setToast :: "string option \<Rightarrow> DeviceState \<Rightarrow> DeviceState" where
  "setToast m s = s\<lparr>toast := m\<rparr>"

definition setPowered :: "bool \<Rightarrow> DeviceState \<Rightarrow> DeviceState" where
  "setPowered b s = s\<lparr>powered := b\<rparr>"

definition showToast :: "string \<Rightarrow> DeviceState \<Rightarrow> DeviceState" where
  "showToast msg s = setTimeout ClearToast 1500 (setToast (Some msg) s)"

subsection \<open>Mock transaction and settings menu\<close>

definition tx_to :: "string \<Rightarrow> string" where
  "tx_to sd = take 42 (address (apps ! 1) sd)"

text \<open>Title and text of each review step; the two amounts are number literals of the source.\<close>

definition txSteps :: "DeviceState \<Rightarrow> (string \<times> string) list" where
  "txSteps s =
    [(''Review'', ''Transaction''),
     (''Network'', ''Ethereum''),
     (''To'', shorten (tx_to (seed s)) 10 10),
     (''Amount'', ''0.042 ETH''),
     (''Max Fee'', ''0.00021 ETH''),
     (''Hold both'', ''to approve'')]"

text \<open>Label and action of each entry; the closures read \<open>powered\<close> of the current render.\<close>

definition settingsMenu :: "DeviceState \<Rightarrow> (string \<times> (DeviceState \<Rightarrow> DeviceState)) list" where
  "settingsMenu s =
    [(''Brightness'', showToast ''Max''),
     (''About'', showToast ''v1.0 demo''),
     (''Lock'', setScreen (LOCK [] 0)),
     (if powered s then ''Power Off'' else ''Power On'', setPowered (\<not> powered s))]"

section \<open>The handlers\<close>

definition left :: "DeviceState \<Rightarrow> DeviceState" where
  "left s =
     (if \<not> powered s then s
      else case screen s of
          APPS index \<Rightarrow> setScreen (APPS (clamp (index - 1) 0 (int (length apps) - 1))) s
        | TX_REVIEW app step approved \<Rightarrow>
            setScreen (TX_REVIEW app (clamp (step - 1) 0 (int (length (txSteps s)) - 1)) approved) s
        | SETTINGS index \<Rightarrow>
            setScreen (SETTINGS (clamp (index - 1) 0 (int (length (settingsMenu s)) - 1))) s
        | LOCK pin cursor \<Rightarrow> setScreen (LOCK pin (clamp (cursor - 1) 0 3)) s
        | _ \<Rightarrow> s)"

definition right :: "DeviceState \<Rightarrow> DeviceState" where
  "right s =
     (if \<not> powered s then s
      else case screen s of
          APPS index \<Rightarrow> setScreen (APPS (clamp (index + 1) 0 (int (length apps) - 1))) s
        | TX_REVIEW app step approved \<Rightarrow>
            setScreen (TX_REVIEW app (clamp (step + 1) 0 (int (length (txSteps s)) - 1)) approved) s
        | SETTINGS index \<Rightarrow>
            setScreen (SETTINGS (clamp (index + 1) 0 (int (length (settingsMenu s)) - 1))) s
        | LOCK pin cursor \<Rightarrow> setScreen (LOCK pin (clamp (cursor + 1) 0 3)) s
        | _ \<Rightarrow> s)"

subsection \<open>The PIN digit under the cursor\<close>

text \<open>\<^verbatim>\<open>pin.padEnd(4, "_")\<close> and \<^verbatim>\<open>.split("")\<close>: one string per code unit.\<close>

definition padEnd :: "string \<Rightarrow> nat \<Rightarrow> char \<Rightarrow> string" where
  "padEnd str n c = str @ replicate (n - length str) c"

definition split_chars :: "string \<Rightarrow> string list" where
  "split_chars str = map (\<lambda>c. [c]) str"

text \<open>
  \<^verbatim>\<open>Number(x) || 0\<close> for an array element \<open>x\<close> of one code unit, or \<open>undefined\<close>:
  the digit's value for a decimal digit; every other element converts to \<open>NaN\<close> or to
  \<open>0\<close>, and both give \<open>0\<close>.
\<close>

definition number_or_zero :: "string option \<Rightarrow> int" where
  "number_or_zero x =
     (case x of
        Some [c] \<Rightarrow> (let v = of_char c - 48 in if 0 \<le> v \<and> v \<le> (9 :: int) then v else 0)
      | _ \<Rightarrow> 0)"

text \<open>\<open>String(d)\<close> for a number \<open>d\<close> between 0 and 9.\<close>

definition digit_string :: "int \<Rightarrow> string" where
  "digit_string d = [''0123456789'' ! nat d]"

text \<open>
  \<open>next[i] = v\<close>: inside the array the element is replaced; past its end the array
  grows, the holes joining as empty strings; a negative \<open>i\<close> sets a property that
  \<open>join\<close> does not see.
\<close>

definition array_set :: "string list \<Rightarrow> int \<Rightarrow> string \<Rightarrow> string list" where
  "array_set xs i v =
     (if i < 0 then xs
      else if nat i < length xs then xs[nat i := v]
      else xs @ replicate (nat i - length xs) [] @ [v])"

definition commit_pin :: "string \<Rightarrow> int \<Rightarrow> string" where
  "commit_pin pin cursor =
     (let nextPin = padEnd pin 4 (CHR ''_'');
          next = split_chars nextPin;
          next' = array_set next cursor
                    (digit_string ((number_or_zero (js_index next cursor) + 1) mod 10))
      in filter (\<lambda>c. c \<noteq> CHR ''_'') (concat next'))"

subsection \<open>confirm, back, power\<close>

text \<open>
  \<open>confirm\<close> is the one handler that can throw: on the settings screen it reads
  \<open>.action\<close> of \<open>settingsMenu[index]\<close>, a \<open>TypeError\<close> when the index is outside the
  menu. Every entry of the menu has an action, so the optional call \<^verbatim>\<open>action?.()\<close>
  always runs it.
\<close>

datatype js_error = TypeError

definition confirm :: "DeviceState \<Rightarrow> js_error + DeviceState" where
  "confirm s =
     (if \<not> powered s then Inr s
      else case screen s of
          LOCK pin cursor \<Rightarrow>
            (if pin = ''1234'' then Inr (setScreen HOME s)
             else
               let committed = commit_pin pin cursor;
                   s1 = setScreen (LOCK committed cursor) s;
                   s2 = (if length committed = 4
                         then showToast (if committed = ''1234'' then ''PIN OK'' else ''Wrong PIN'') s1
                         else s1);
                   s3 = (if committed = ''1234'' then setTimeout GotoHome 300 s2 else s2)
               in Inr s3)
        | HOME \<Rightarrow> Inr (setScreen (APPS 0) s)
        | APPS index \<Rightarrow> Inr (setScreen (ADDRESS (js_index apps index)) s)
        | ADDRESS app \<Rightarrow> Inr (setScreen (TX_REVIEW app 0 None) s)
        | TX_REVIEW app step approved \<Rightarrow>
            (if step < int (length (txSteps s)) - 1
             then Inr (setScreen (TX_REVIEW app (step + 1) approved) s)
             else Inr (setScreen (TX_REVIEW app step (Some True)) s))
        | SETTINGS index \<Rightarrow>
            (case js_index (settingsMenu s) index of
               None \<Rightarrow> Inl TypeError
             | Some item \<Rightarrow> Inr (snd item s))
        | SPLASH \<Rightarrow> Inr s)"

text \<open>The handler \<^verbatim>\<open>back\<close> of the source; the bare name is a keyword of the proof language.\<close>

definition back_op :: "DeviceState \<Rightarrow> DeviceState" where
  "back_op s =
     (if \<not> powered s then s
      else case screen s of
          APPS index \<Rightarrow> setScreen HOME s
        | SETTINGS index \<Rightarrow> setScreen HOME s
        | ADDRESS app \<Rightarrow> setScreen (APPS 0) s
        | TX_REVIEW app step approved \<Rightarrow> setScreen (ADDRESS app) s
        | _ \<Rightarrow> s)"

text \<open>The power button, \<^verbatim>\<open>setPowered(!powered)\<close>, and the key P, \<^verbatim>\<open>setPowered((v) => !v)\<close>.\<close>

definition togglePower :: "DeviceState \<Rightarrow> DeviceState" where
  "togglePower s = setPowered (\<not> powered s) s"

section \<open>Events\<close>

text \<open>
  An exception thrown by a handler leaves the state cells as they were. \<open>fire i\<close> runs
  the \<open>i\<close>-th pending callback and removes it from the pending ones.
\<close>

definition confirm_click :: "DeviceState \<Rightarrow> DeviceState" where
  "confirm_click s = (case confirm s of Inl e \<Rightarrow> s | Inr s' \<Rightarrow> s')"

definition onKey :: "string \<Rightarrow> DeviceState \<Rightarrow> DeviceState" where
  "onKey k s =
     (if k = ''p'' \<or> k = ''P'' then togglePower s
      else if \<not> powered s then s
      else if k = ''['' \<or> k = ''ArrowLeft'' then left s
      else if k = '']'' \<or> k = ''ArrowRight'' then right s
      else if k = ''Enter'' then confirm_click s
      else s)"

definition run_callback :: "callback \<Rightarrow> DeviceState \<Rightarrow> DeviceState" where
  "run_callback cb s =
     (case cb of
        GotoLock \<Rightarrow> setScreen (LOCK [] 0) s
      | GotoHome \<Rightarrow> setScreen HOME s
      | ClearToast \<Rightarrow> setToast None s)"

definition fire :: "nat \<Rightarrow> DeviceState \<Rightarrow> DeviceState" where
  "fire i s =
     (if i < length (timers s)
      then run_callback (snd (timers s ! i)) (s\<lparr>timers := take i (timers s) @ drop (Suc i) (timers s)\<rparr>)
      else s)"

datatype event =
    PressLeft | PressRight | PressBoth | PressBack | PressPower | PressSettings
  | KeyDown string | TimerFires nat

fun dispatch :: "event \<Rightarrow> DeviceState \<Rightarrow> DeviceState" where
  "dispatch PressLeft s = left s"
| "dispatch PressRight s = right s"
| "dispatch PressBoth s = confirm_click s"
| "dispatch PressBack s = back_op s"
| "dispatch PressPower s = togglePower s"
| "dispatch PressSettings s = setScreen (SETTINGS 0) s"
| "dispatch (KeyDown k) s = onKey k s"
| "dispatch (TimerFires i) s = fire i s"

fun run :: "event list \<Rightarrow> DeviceState \<Rightarrow> DeviceState" where
  "run [] s = s"
| "run (e # es) s = run es (dispatch e s)"

text \<open>The state the device is in once the splash timer has fired and nothing else happened.\<close>

definition after_splash :: DeviceState where
  "after_splash = dispatch (TimerFires 0) init"

text \<open>The alphabet of the hexadecimal digits that \<open>toString(16)\<close> writes.\<close>

definition hex_alphabet :: "char set" where
  "hex_alphabet = set ''0123456789abcdef''"

text \<open>
  The ranges of the bounded fields: the cursor of the lock screen, the index into the
  catalogue, the review step and the index into the settings menu.
\<close>

definition in_range :: "DeviceState \<Rightarrow> bool" where
  "in_range s =
     (case screen s of
        LOCK pin cursor \<Rightarrow> 0 \<le> cursor \<and> cursor \<le> 3
      | APPS index \<Rightarrow> 0 \<le> index \<and> index \<le> int (length apps) - 1
      | TX_REVIEW app step approved \<Rightarrow> 0 \<le> step \<and> step \<le> int (length (txSteps s)) - 1
      | SETTINGS index \<Rightarrow> 0 \<le> index \<and> index \<le> int (length (settingsMenu s)) - 1
      | _ \<Rightarrow> True)"

section \<open>Properties\<close>

lemma length_apps: "length apps = 3"
  by (simp add: apps_def)

lemma length_txSteps: "length (txSteps s) = 6"
  by (simp add: txSteps_def)

lemma length_settingsMenu: "length (settingsMenu s) = 4"
  by (simp add: settingsMenu_def)

lemmas lengths = length_apps length_txSteps length_settingsMenu

lemma length_hex: "length (hex h) = 8"
  by (simp add: hex_def)

text \<open>
  \<open>round_double\<close> keeps every integer below \<open>2 ^ 53\<close> in magnitude, and above it
  rounds to the nearest representable one, a tie going to the even significand.
\<close>

lemma round_double_exact: "\<bar>x\<bar> < 2 ^ 53 \<Longrightarrow> round_double x = x"
proof -
  assume "\<bar>x\<bar> < 2 ^ 53"
  then have "ulp_exp \<bar>x\<bar> = 0"
    by (subst ulp_exp.simps) simp
  then show ?thesis
    by (simp add: round_double_def mult_sgn_abs)
qed

lemma round_double_ties:
  "round_double (2 ^ 53 + 1) = 2 ^ 53"
  "round_double (2 ^ 53 + 3) = 2 ^ 53 + 4"
  "round_double (- (2 ^ 53) - 1) = - (2 ^ 53)"
  "round_double (2 ^ 54 + 2) = 2 ^ 54"
  "round_double (2 ^ 54 + 3) = 2 ^ 54 + 4"
  by code_simp+

lemmas state_ops = setScreen_def setToast_def setPowered_def showToast_def setTimeout_def is_splash_def

lemma after_splash_eq: "after_splash = init\<lparr>screen := LOCK [] 0, timers := []\<rparr>"
  by (simp add: after_splash_def init_def fire_def run_callback_def state_ops)

subsection \<open>The PIN flow\<close>

lemma commit_pin_values:
  "commit_pin '''' 0 = ''1''"
  "commit_pin ''1'' 1 = ''11''"
  "commit_pin ''11'' 1 = ''12''"
  "commit_pin ''11'' 2 = ''111''"
  "commit_pin ''12'' 2 = ''121''"
  "commit_pin ''121'' 2 = ''122''"
  "commit_pin ''122'' 2 = ''123''"
  "commit_pin ''111'' 3 = ''1111''"
  "commit_pin ''123'' 3 = ''1231''"
  "commit_pin ''1231'' 3 = ''1232''"
  "commit_pin ''1232'' 3 = ''1233''"
  "commit_pin ''1233'' 3 = ''1234''"
  by code_simp+

text \<open>
  Claim C1, as stated, fails. From the lock screen with an empty PIN and the cursor at 0,
  the seven events confirm, right, confirm, right, confirm, right, confirm raise each of
  the four slots once, from unset to 1: the committed PIN is \<open>1111\<close>, the toast is
  "Wrong PIN", the screen is still the lock screen, and the only pending timer is the one
  that clears the toast, so nothing moves the device to the home screen.
\<close>

theorem C1_seven_events_commit_1111:
  "powered after_splash \<and> screen after_splash = LOCK [] 0 \<and>
   screen (run [PressBoth, PressRight, PressBoth, PressRight, PressBoth, PressRight, PressBoth]
            after_splash) = LOCK ''1111'' 3 \<and>
   toast (run [PressBoth, PressRight, PressBoth, PressRight, PressBoth, PressRight, PressBoth]
            after_splash) = Some ''Wrong PIN'' \<and>
   timers (run [PressBoth, PressRight, PressBoth, PressRight, PressBoth, PressRight, PressBoth]
            after_splash) = [(1500, ClearToast)] \<and>
   screen (run [PressBoth, PressRight, PressBoth, PressRight, PressBoth, PressRight, PressBoth]
            after_splash) \<noteq> LOCK ''1234'' 3 \<and>
   (300, GotoHome) \<notin> set (timers
     (run [PressBoth, PressRight, PressBoth, PressRight, PressBoth, PressRight, PressBoth]
       after_splash))"
  by (simp add: after_splash_eq init_def confirm_click_def confirm_def right_def clamp_def
        state_ops commit_pin_values Let_def)

text \<open>
  Claim C1, amended. Every confirm raises the slot under the cursor by one, so the PIN
  1234 takes one confirm at cursor 0, two at cursor 1, three at cursor 2 and four at
  cursor 3. From any powered state on the lock screen with an empty PIN and the cursor at
  0, these thirteen events end on the lock screen with the committed PIN \<open>1234\<close> and the
  toast "PIN OK"; the three wrong four-digit PINs on the way and the right one have each
  scheduled a toast timer, and the last confirm has scheduled the move to the home screen
  after 300 ms; when that timer fires the screen is the home screen.
\<close>

theorem C1_pin_flow_1234:
  "screen (run [PressBoth, PressRight, PressBoth, PressBoth, PressRight, PressBoth, PressBoth,
                PressBoth, PressRight, PressBoth, PressBoth, PressBoth, PressBoth]
            (s\<lparr>powered := True, screen := LOCK [] 0\<rparr>)) = LOCK ''1234'' 3 \<and>
   toast (run [PressBoth, PressRight, PressBoth, PressBoth, PressRight, PressBoth, PressBoth,
                PressBoth, PressRight, PressBoth, PressBoth, PressBoth, PressBoth]
            (s\<lparr>powered := True, screen := LOCK [] 0\<rparr>)) = Some ''PIN OK'' \<and>
   timers (run [PressBoth, PressRight, PressBoth, PressBoth, PressRight, PressBoth, PressBoth,
                PressBoth, PressRight, PressBoth, PressBoth, PressBoth, PressBoth]
            (s\<lparr>powered := True, screen := LOCK [] 0\<rparr>)) =
     timers s @ [(1500, ClearToast), (1500, ClearToast), (1500, ClearToast), (1500, ClearToast),
                 (300, GotoHome)] \<and>
   screen (run [PressBoth, PressRight, PressBoth, PressBoth, PressRight, PressBoth, PressBoth,
                PressBoth, PressRight, PressBoth, PressBoth, PressBoth, PressBoth,
                TimerFires (length (timers s) + 4)]
            (s\<lparr>powered := True, screen := LOCK [] 0\<rparr>)) = HOME"
  by (simp add: confirm_click_def confirm_def right_def clamp_def state_ops
        commit_pin_values Let_def fire_def run_callback_def nth_append)

subsection \<open>The navigation scenario\<close>

lemma replicate_confirms: "replicate 5 x = [x, x, x, x, x]" "replicate 6 x = [x, x, x, x, x, x]"
  by (simp_all add: numeral_eq_Suc)

lemma apps_eth: "js_index apps 1 = Some (apps ! 1)" "key (apps ! 1) = ''eth''"
  by (simp_all add: js_index_def apps_def)

text \<open>
  Claim C2, as stated, fails. On the home screen, powered, the events confirm, right,
  confirm, confirm and then stepCount - 1 = 5 more confirms end on the last review step,
  step 5, with \<open>approved\<close> still absent: the five confirms are used up by the moves from
  step 0 to step 5.
\<close>

theorem C2_five_confirms_not_approved:
  "powered (after_splash\<lparr>screen := HOME\<rparr>) \<and>
   screen (after_splash\<lparr>screen := HOME\<rparr>) = HOME \<and>
   length (txSteps (after_splash\<lparr>screen := HOME\<rparr>)) - 1 = 5 \<and>
   screen (run ([PressBoth, PressRight, PressBoth, PressBoth]
                 @ replicate (length (txSteps (after_splash\<lparr>screen := HOME\<rparr>)) - 1) PressBoth)
            (after_splash\<lparr>screen := HOME\<rparr>)) = TX_REVIEW (Some (apps ! 1)) 5 None \<and>
   \<not> is_approved None"
  by (simp add: after_splash_eq init_def lengths replicate_confirms confirm_click_def confirm_def
        right_def clamp_def state_ops apps_eth is_approved_def)

text \<open>
  Claim C2, amended. From any powered state on the home screen the events confirm, right,
  confirm, confirm pass through Apps 0, Apps 1, the address screen of \<open>apps[1]\<close> and the
  review at step 0; stepCount - 1 further confirms reach the last step, not yet approved,
  and it is the confirm after that, the stepCount-th, that sets \<open>approved\<close> to true.
\<close>

theorem C2_navigation_scenario:
  "screen (run [PressBoth] (s\<lparr>powered := True, screen := HOME\<rparr>)) = APPS 0 \<and>
   screen (run [PressBoth, PressRight] (s\<lparr>powered := True, screen := HOME\<rparr>)) = APPS 1 \<and>
   screen (run [PressBoth, PressRight, PressBoth] (s\<lparr>powered := True, screen := HOME\<rparr>))
     = ADDRESS (Some (apps ! 1)) \<and>
   screen (run [PressBoth, PressRight, PressBoth, PressBoth] (s\<lparr>powered := True, screen := HOME\<rparr>))
     = TX_REVIEW (Some (apps ! 1)) 0 None \<and>
   length (txSteps (s\<lparr>powered := True, screen := HOME\<rparr>)) = 6 \<and>
   screen (run ([PressBoth, PressRight, PressBoth, PressBoth]
                 @ replicate (length (txSteps (s\<lparr>powered := True, screen := HOME\<rparr>)) - 1) PressBoth)
            (s\<lparr>powered := True, screen := HOME\<rparr>)) = TX_REVIEW (Some (apps ! 1)) 5 None \<and>
   screen (run ([PressBoth, PressRight, PressBoth, PressBoth]
                 @ replicate (length (txSteps (s\<lparr>powered := True, screen := HOME\<rparr>))) PressBoth)
            (s\<lparr>powered := True, screen := HOME\<rparr>)) = TX_REVIEW (Some (apps ! 1)) 5 (Some True) \<and>
   is_approved (Some True)"
  by (simp add: lengths replicate_confirms confirm_click_def confirm_def right_def
        clamp_def state_ops apps_eth is_approved_def)

subsection \<open>The bounded fields stay in range\<close>

lemma left_in_range: "in_range s \<Longrightarrow> in_range (left s)"
  by (auto simp: left_def in_range_def clamp_def lengths state_ops split: Screen.splits)

lemma right_in_range: "in_range s \<Longrightarrow> in_range (right s)"
  by (auto simp: right_def in_range_def clamp_def lengths state_ops split: Screen.splits)

lemma back_op_in_range: "in_range s \<Longrightarrow> in_range (back_op s)"
  by (auto simp: back_op_def in_range_def lengths state_ops split: Screen.splits)

lemma togglePower_in_range: "in_range s \<Longrightarrow> in_range (togglePower s)"
  by (auto simp: togglePower_def in_range_def lengths state_ops split: Screen.splits)

lemma menu_index_cases: "0 \<le> i \<Longrightarrow> i \<le> (3::int) \<Longrightarrow> i = 0 \<or> i = 1 \<or> i = 2 \<or> i = 3"
  by arith

lemma confirm_click_in_range: "in_range s \<Longrightarrow> in_range (confirm_click s)"
proof (cases "screen s")
  case (SETTINGS i)
  assume "in_range s"
  with SETTINGS have "i = 0 \<or> i = 1 \<or> i = 2 \<or> i = 3"
    by (simp add: in_range_def lengths menu_index_cases)
  with SETTINGS show ?thesis
    by (auto simp: confirm_click_def confirm_def in_range_def js_index_def settingsMenu_def
          lengths state_ops)
qed (auto simp: confirm_click_def confirm_def in_range_def lengths state_ops Let_def)

text \<open>In range, the settings index is inside the menu, so \<open>confirm\<close> does not throw.\<close>

lemma confirm_no_error: "in_range s \<Longrightarrow> \<exists>s'. confirm s = Inr s'"
  by (auto simp: confirm_def in_range_def js_index_def lengths Let_def split: Screen.splits)

lemma fire_in_range: "in_range s \<Longrightarrow> in_range (fire i s)"
  by (auto simp: fire_def run_callback_def in_range_def lengths state_ops
        split: Screen.splits callback.splits)

lemma onKey_in_range: "in_range s \<Longrightarrow> in_range (onKey k s)"
  by (simp add: onKey_def left_in_range right_in_range confirm_click_in_range togglePower_in_range)

lemma dispatch_in_range: "in_range s \<Longrightarrow> in_range (dispatch e s)"
  by (cases e)
     (simp_all add: left_in_range right_in_range confirm_click_in_range back_op_in_range
        togglePower_in_range fire_in_range onKey_in_range,
      simp add: in_range_def lengths state_ops)

lemma run_in_range: "in_range s \<Longrightarrow> in_range (run es s)"
  by (induction es arbitrary: s) (simp_all add: dispatch_in_range)

lemma init_in_range: "in_range init"
  by (simp add: in_range_def init_def)

text \<open>
  Claim C3. Every state reached from the initial state by a sequence of events (the
  buttons left, right, confirm, back, power and settings, the keys, and the pending
  timers firing in any order) has its bounded field in range, where the catalogue has 3
  apps, the review 6 steps and the menu 4 entries; no single event takes a state in range
  to one out of range; and, powered, left at the lower bound and right at the upper
  bound leave the field where it is.
\<close>

theorem C3_bounded_fields_in_range:
  "in_range (run es init) \<and>
   (in_range s \<longrightarrow> in_range (dispatch e s)) \<and>
   length apps = 3 \<and> length (txSteps s) = 6 \<and> length (settingsMenu s) = 4 \<and>
   screen (left (s\<lparr>powered := True, screen := LOCK pin 0\<rparr>)) = LOCK pin 0 \<and>
   screen (right (s\<lparr>powered := True, screen := LOCK pin 3\<rparr>)) = LOCK pin 3 \<and>
   screen (left (s\<lparr>powered := True, screen := APPS 0\<rparr>)) = APPS 0 \<and>
   screen (right (s\<lparr>powered := True, screen := APPS 2\<rparr>)) = APPS 2 \<and>
   screen (left (s\<lparr>powered := True, screen := TX_REVIEW app 0 approved\<rparr>))
     = TX_REVIEW app 0 approved \<and>
   screen (right (s\<lparr>powered := True, screen := TX_REVIEW app 5 approved\<rparr>))
     = TX_REVIEW app 5 approved \<and>
   screen (left (s\<lparr>powered := True, screen := SETTINGS 0\<rparr>)) = SETTINGS 0 \<and>
   screen (right (s\<lparr>powered := True, screen := SETTINGS 3\<rparr>)) = SETTINGS 3"
  by (simp add: run_in_range init_in_range dispatch_in_range lengths left_def right_def
        clamp_def state_ops)

text \<open>
  Claim C3 at a concrete run: once the splash timer has fired, four presses of right move
  the cursor of the lock screen to 3 and no further; that state is in range, and so is
  the one after a fifth press.
\<close>

theorem C3_bounded_fields_in_range_witness:
  "in_range (run [TimerFires 0, PressRight, PressRight, PressRight, PressRight] init) \<and>
   screen (run [TimerFires 0, PressRight, PressRight, PressRight, PressRight] init) = LOCK [] 3 \<and>
   in_range (dispatch PressRight
     (run [TimerFires 0, PressRight, PressRight, PressRight, PressRight] init)) \<and>
   screen (dispatch PressRight
     (run [TimerFires 0, PressRight, PressRight, PressRight, PressRight] init)) = LOCK [] 3"
proof -
  let ?es = "[TimerFires 0, PressRight, PressRight, PressRight, PressRight]"
  have r: "in_range (run ?es init)"
    using C3_bounded_fields_in_range [where es = ?es] by simp
  have n: "in_range (dispatch PressRight (run ?es init))"
    using C3_bounded_fields_in_range [where es = ?es and s = "run ?es init" and e = PressRight] r by simp
  have s: "screen (run ?es init) = LOCK [] 3"
    by (simp add: init_def fire_def run_callback_def right_def clamp_def state_ops)
  have t: "screen (dispatch PressRight (run ?es init)) = LOCK [] 3"
    by (simp add: init_def fire_def run_callback_def right_def clamp_def state_ops)
  from r n s t show ?thesis by simp
qed

subsection \<open>Power\<close>

text \<open>
  Claim C4. In a state that is not powered, left, right, confirm and back return the state
  as it is, through the buttons and through the keys; the power toggle, in any state,
  flips \<open>powered\<close> and changes no other cell, from the button and from the key P alike.
\<close>

theorem C4_power_guard_and_toggle:
  "(\<not> powered s \<longrightarrow>
      left s = s \<and> right s = s \<and> confirm s = Inr s \<and> back_op s = s \<and>
      dispatch PressLeft s = s \<and> dispatch PressRight s = s \<and> dispatch PressBoth s = s \<and>
      dispatch PressBack s = s \<and>
      onKey ''['' s = s \<and> onKey '']'' s = s \<and> onKey ''Enter'' s = s) \<and>
   togglePower s = s\<lparr>powered := \<not> powered s\<rparr> \<and>
   powered (togglePower s) = (\<not> powered s) \<and>
   screen (togglePower s) = screen s \<and> seed (togglePower s) = seed s \<and>
   toast (togglePower s) = toast s \<and> timers (togglePower s) = timers s \<and>
   dispatch PressPower s = togglePower s \<and>
   onKey ''p'' s = togglePower s \<and> onKey ''P'' s = togglePower s"
  by (auto simp: left_def right_def confirm_def back_op_def confirm_click_def onKey_def
        togglePower_def setPowered_def)

text \<open>
  Claim C4 at a concrete state: the lock screen after the splash, powered off. The four
  operations leave it as it is, and the toggle powers it on again on the same screen.
\<close>

theorem C4_power_guard_and_toggle_witness:
  "\<not> powered (after_splash\<lparr>powered := False\<rparr>) \<and>
   left (after_splash\<lparr>powered := False\<rparr>) = after_splash\<lparr>powered := False\<rparr> \<and>
   right (after_splash\<lparr>powered := False\<rparr>) = after_splash\<lparr>powered := False\<rparr> \<and>
   confirm (after_splash\<lparr>powered := False\<rparr>) = Inr (after_splash\<lparr>powered := False\<rparr>) \<and>
   back_op (after_splash\<lparr>powered := False\<rparr>) = after_splash\<lparr>powered := False\<rparr> \<and>
   powered (togglePower (after_splash\<lparr>powered := False\<rparr>)) \<and>
   screen (togglePower (after_splash\<lparr>powered := False\<rparr>)) = LOCK [] 0"
  using C4_power_guard_and_toggle [where s = "after_splash\<lparr>powered := False\<rparr>"]
  by (simp add: after_splash_eq)

subsection \<open>Confirm on the address and review screens\<close>

text \<open>
  Claim C6. Powered, confirm on the address screen of \<open>app\<close> opens the review of the same
  app at step 0 with \<open>approved\<close> absent, which reads as false; confirm on a review before
  the last step moves one step on and keeps \<open>approved\<close>; confirm on the last step keeps
  the step and sets \<open>approved\<close> to true.
\<close>

theorem C6_confirm_address_and_review:
  "(powered s \<and> screen s = ADDRESS app \<longrightarrow>
      confirm s = Inr (s\<lparr>screen := TX_REVIEW app 0 None\<rparr>) \<and> \<not> is_approved None) \<and>
   (powered s \<and> screen s = TX_REVIEW app step approved \<and> step < int (length (txSteps s)) - 1 \<longrightarrow>
      confirm s = Inr (s\<lparr>screen := TX_REVIEW app (step + 1) approved\<rparr>)) \<and>
   (powered s \<and> screen s = TX_REVIEW app step approved \<and> step = int (length (txSteps s)) - 1 \<longrightarrow>
      confirm s = Inr (s\<lparr>screen := TX_REVIEW app step (Some True)\<rparr>) \<and> is_approved (Some True))"
  by (simp add: confirm_def state_ops is_approved_def)

text \<open>
  Claim C6 at concrete states: the address screen of the second app, its review at step 2
  and its review at the last step, 5.
\<close>

theorem C6_confirm_address_and_review_witness:
  "powered (after_splash\<lparr>screen := ADDRESS (Some (apps ! 1))\<rparr>) \<and>
   confirm (after_splash\<lparr>screen := ADDRESS (Some (apps ! 1))\<rparr>)
     = Inr (after_splash\<lparr>screen := TX_REVIEW (Some (apps ! 1)) 0 None\<rparr>) \<and>
   powered (after_splash\<lparr>screen := TX_REVIEW (Some (apps ! 1)) 2 None\<rparr>) \<and>
   confirm (after_splash\<lparr>screen := TX_REVIEW (Some (apps ! 1)) 2 None\<rparr>)
     = Inr (after_splash\<lparr>screen := TX_REVIEW (Some (apps ! 1)) 3 None\<rparr>) \<and>
   confirm (after_splash\<lparr>screen := TX_REVIEW (Some (apps ! 1)) 5 None\<rparr>)
     = Inr (after_splash\<lparr>screen := TX_REVIEW (Some (apps ! 1)) 5 (Some True)\<rparr>)"
proof -
  let ?a = "Some (apps ! 1)"
  have p: "powered after_splash" by (simp add: after_splash_eq init_def)
  have a: "confirm (after_splash\<lparr>screen := ADDRESS ?a\<rparr>)
             = Inr (after_splash\<lparr>screen := TX_REVIEW ?a 0 None\<rparr>)"
    using C6_confirm_address_and_review [where s = "after_splash\<lparr>screen := ADDRESS ?a\<rparr>" and app = ?a] p
    by simp
  have b: "confirm (after_splash\<lparr>screen := TX_REVIEW ?a 2 None\<rparr>)
             = Inr (after_splash\<lparr>screen := TX_REVIEW ?a 3 None\<rparr>)"
    using C6_confirm_address_and_review [where s = "after_splash\<lparr>screen := TX_REVIEW ?a 2 None\<rparr>"
        and app = ?a and step = 2 and approved = None] p
    by (simp add: length_txSteps)
  have c: "confirm (after_splash\<lparr>screen := TX_REVIEW ?a 5 None\<rparr>)
             = Inr (after_splash\<lparr>screen := TX_REVIEW ?a 5 (Some True)\<rparr>)"
    using C6_confirm_address_and_review [where s = "after_splash\<lparr>screen := TX_REVIEW ?a 5 None\<rparr>"
        and app = ?a and step = 5 and approved = None] p
    by (simp add: length_txSteps)
  from p a b c show ?thesis by simp
qed

subsection \<open>Back\<close>

text \<open>
  Claim C7. Powered, back leads from the app list and from the settings to the home
  screen, from an address screen to the app list at index 0, from a review at any step and
  approval to the address screen of the same app, and does nothing on the splash, lock
  and home screens.
\<close>

theorem C7_back_transitions:
  "(powered s \<and> screen s = APPS index \<longrightarrow> back_op s = s\<lparr>screen := HOME\<rparr>) \<and>
   (powered s \<and> screen s = SETTINGS index \<longrightarrow> back_op s = s\<lparr>screen := HOME\<rparr>) \<and>
   (powered s \<and> screen s = ADDRESS app \<longrightarrow> back_op s = s\<lparr>screen := APPS 0\<rparr>) \<and>
   (powered s \<and> screen s = TX_REVIEW app step approved \<longrightarrow>
      back_op s = s\<lparr>screen := ADDRESS app\<rparr>) \<and>
   (powered s \<and> (screen s = SPLASH \<or> screen s = LOCK pin cursor \<or> screen s = HOME) \<longrightarrow>
      back_op s = s)"
  by (auto simp: back_op_def state_ops)

text \<open>
  Claim C7 at concrete states: the app list at index 2, the settings at index 1, the
  address screen and an approved review of the third app, and the lock screen.
\<close>

theorem C7_back_transitions_witness:
  "powered after_splash \<and>
   back_op (after_splash\<lparr>screen := APPS 2\<rparr>) = after_splash\<lparr>screen := HOME\<rparr> \<and>
   back_op (after_splash\<lparr>screen := SETTINGS 1\<rparr>) = after_splash\<lparr>screen := HOME\<rparr> \<and>
   back_op (after_splash\<lparr>screen := ADDRESS (Some (apps ! 2))\<rparr>) = after_splash\<lparr>screen := APPS 0\<rparr> \<and>
   back_op (after_splash\<lparr>screen := TX_REVIEW (Some (apps ! 2)) 5 (Some True)\<rparr>)
     = after_splash\<lparr>screen := ADDRESS (Some (apps ! 2))\<rparr> \<and>
   screen after_splash = LOCK [] 0 \<and> back_op after_splash = after_splash"
proof -
  let ?a = "Some (apps ! 2)"
  have p: "powered after_splash" and l: "screen after_splash = LOCK [] 0"
    by (simp_all add: after_splash_eq init_def)
  have a: "back_op (after_splash\<lparr>screen := APPS 2\<rparr>) = after_splash\<lparr>screen := HOME\<rparr>"
    using C7_back_transitions [where s = "after_splash\<lparr>screen := APPS 2\<rparr>" and index = 2] p by simp
  have b: "back_op (after_splash\<lparr>screen := SETTINGS 1\<rparr>) = after_splash\<lparr>screen := HOME\<rparr>"
    using C7_back_transitions [where s = "after_splash\<lparr>screen := SETTINGS 1\<rparr>" and index = 1] p by simp
  have c: "back_op (after_splash\<lparr>screen := ADDRESS ?a\<rparr>) = after_splash\<lparr>screen := APPS 0\<rparr>"
    using C7_back_transitions [where s = "after_splash\<lparr>screen := ADDRESS ?a\<rparr>" and app = ?a] p by simp
  have d: "back_op (after_splash\<lparr>screen := TX_REVIEW ?a 5 (Some True)\<rparr>)
             = after_splash\<lparr>screen := ADDRESS ?a\<rparr>"
    using C7_back_transitions [where s = "after_splash\<lparr>screen := TX_REVIEW ?a 5 (Some True)\<rparr>"
        and app = ?a and step = 5 and approved = "Some True"] p
    by simp
  have e: "back_op after_splash = after_splash"
    using C7_back_transitions [where s = after_splash and pin = "[]" and cursor = 0] p l by simp
  from p l a b c d e show ?thesis by simp
qed

subsection \<open>The toast of a committed PIN\<close>

text \<open>
  Claim C8. Powered, on the lock screen with a PIN other than 1234 (the case in which
  confirm commits a PIN), when the committed PIN has length 4 the new state is exactly
  this: the lock screen with the committed PIN and the same cursor, the toast "PIN OK" if
  the committed PIN is 1234 and "Wrong PIN" otherwise, the timer that clears the toast,
  and the timer that moves to the home screen only if the committed PIN is 1234. So a
  wrong committed PIN stays on the lock screen and schedules no move away from it.
\<close>

theorem C8_committed_pin_toast:
  assumes "powered s" and "screen s = LOCK pin cursor" and "pin \<noteq> ''1234''"
    and "length (commit_pin pin cursor) = 4"
  shows "confirm s =
           Inr (s\<lparr>screen := LOCK (commit_pin pin cursor) cursor,
                  toast := Some (if commit_pin pin cursor = ''1234'' then ''PIN OK'' else ''Wrong PIN''),
                  timers := timers s @ (1500, ClearToast) #
                    (if commit_pin pin cursor = ''1234'' then [(300, GotoHome)] else [])\<rparr>)"
  using assms by (simp add: confirm_def state_ops Let_def)

text \<open>Whatever the length, confirm on a PIN other than 1234 stays on the lock screen.\<close>

lemma confirm_lock_stays:
  "powered s \<Longrightarrow> screen s = LOCK pin cursor \<Longrightarrow> pin \<noteq> ''1234'' \<Longrightarrow>
   \<exists>s'. confirm s = Inr s' \<and> screen s' = LOCK (commit_pin pin cursor) cursor"
  by (simp add: confirm_def state_ops Let_def)

text \<open>
  Claim C8 at concrete states: with the cursor on the last slot, confirm on the PIN 111
  commits 1111, a wrong PIN, and confirm on 1233 commits 1234.
\<close>

theorem C8_committed_pin_toast_witness:
  "powered (after_splash\<lparr>screen := LOCK ''111'' 3\<rparr>) \<and>
   commit_pin ''111'' 3 = ''1111'' \<and>
   confirm (after_splash\<lparr>screen := LOCK ''111'' 3\<rparr>)
     = Inr (after_splash\<lparr>screen := LOCK ''1111'' 3, toast := Some ''Wrong PIN'',
                          timers := [(1500, ClearToast)]\<rparr>) \<and>
   commit_pin ''1233'' 3 = ''1234'' \<and>
   confirm (after_splash\<lparr>screen := LOCK ''1233'' 3\<rparr>)
     = Inr (after_splash\<lparr>screen := LOCK ''1234'' 3, toast := Some ''PIN OK'',
                          timers := [(1500, ClearToast), (300, GotoHome)]\<rparr>)"
proof -
  have p: "powered after_splash" and t: "timers after_splash = []"
    by (simp_all add: after_splash_eq init_def)
  have a: "confirm (after_splash\<lparr>screen := LOCK ''111'' 3\<rparr>)
     = Inr (after_splash\<lparr>screen := LOCK ''1111'' 3, toast := Some ''Wrong PIN'',
                          timers := [(1500, ClearToast)]\<rparr>)"
    using C8_committed_pin_toast [where s = "after_splash\<lparr>screen := LOCK ''111'' 3\<rparr>"
        and pin = "''111''" and cursor = 3] p t
    by (simp add: commit_pin_values)
  have b: "confirm (after_splash\<lparr>screen := LOCK ''1233'' 3\<rparr>)
     = Inr (after_splash\<lparr>screen := LOCK ''1234'' 3, toast := Some ''PIN OK'',
                          timers := [(1500, ClearToast), (300, GotoHome)]\<rparr>)"
    using C8_committed_pin_toast [where s = "after_splash\<lparr>screen := LOCK ''1233'' 3\<rparr>"
        and pin = "''1233''" and cursor = 3] p t
    by (simp add: commit_pin_values)
  from p a b show ?thesis by (simp add: commit_pin_values)
qed

subsection \<open>The settings menu\<close>

text \<open>
  Claim C9. The menu has the four labels Brightness, About, Lock and, fourth, Power Off
  when powered and Power On otherwise, in this order. Powered, confirm on the settings
  screen at index 0 shows the toast "Max" and at index 1 the toast "v1.0 demo", both on
  the same screen; at index 2 it moves to the lock screen with an empty PIN and the cursor
  at 0; at index 3 it flips \<open>powered\<close>, which was true, and keeps the screen. The fourth
  action flips \<open>powered\<close> whatever its value.
\<close>

theorem C9_settings_menu:
  "map fst (settingsMenu s) =
     [''Brightness'', ''About'', ''Lock'', if powered s then ''Power Off'' else ''Power On''] \<and>
   (powered s \<and> screen s = SETTINGS 0 \<longrightarrow>
      confirm s = Inr (s\<lparr>toast := Some ''Max'', timers := timers s @ [(1500, ClearToast)]\<rparr>)) \<and>
   (powered s \<and> screen s = SETTINGS 1 \<longrightarrow>
      confirm s = Inr (s\<lparr>toast := Some ''v1.0 demo'', timers := timers s @ [(1500, ClearToast)]\<rparr>)) \<and>
   (powered s \<and> screen s = SETTINGS 2 \<longrightarrow> confirm s = Inr (s\<lparr>screen := LOCK [] 0\<rparr>)) \<and>
   (powered s \<and> screen s = SETTINGS 3 \<longrightarrow> confirm s = Inr (s\<lparr>powered := False\<rparr>)) \<and>
   snd (settingsMenu s ! 3) s = s\<lparr>powered := \<not> powered s\<rparr>"
  by (simp add: confirm_def settingsMenu_def js_index_def state_ops)

text \<open>Claim C9 at the four entries, from the state after the splash put on the settings screen.\<close>

theorem C9_settings_menu_witness:
  "powered after_splash \<and>
   map fst (settingsMenu after_splash) = [''Brightness'', ''About'', ''Lock'', ''Power Off''] \<and>
   confirm (after_splash\<lparr>screen := SETTINGS 0\<rparr>)
     = Inr (after_splash\<lparr>screen := SETTINGS 0, toast := Some ''Max'',
                          timers := [(1500, ClearToast)]\<rparr>) \<and>
   confirm (after_splash\<lparr>screen := SETTINGS 1\<rparr>)
     = Inr (after_splash\<lparr>screen := SETTINGS 1, toast := Some ''v1.0 demo'',
                          timers := [(1500, ClearToast)]\<rparr>) \<and>
   confirm (after_splash\<lparr>screen := SETTINGS 2\<rparr>) = Inr (after_splash\<lparr>screen := LOCK [] 0\<rparr>) \<and>
   confirm (after_splash\<lparr>screen := SETTINGS 3\<rparr>)
     = Inr (after_splash\<lparr>screen := SETTINGS 3, powered := False\<rparr>)"
proof -
  have p: "powered after_splash" and t: "timers after_splash = []"
    by (simp_all add: after_splash_eq init_def)
  have l: "map fst (settingsMenu after_splash) = [''Brightness'', ''About'', ''Lock'', ''Power Off'']"
    using C9_settings_menu [where s = after_splash] p by simp
  have a: "confirm (after_splash\<lparr>screen := SETTINGS 0\<rparr>)
     = Inr (after_splash\<lparr>screen := SETTINGS 0, toast := Some ''Max'',
                          timers := [(1500, ClearToast)]\<rparr>)"
    using C9_settings_menu [where s = "after_splash\<lparr>screen := SETTINGS 0\<rparr>"] p t by simp
  have b: "confirm (after_splash\<lparr>screen := SETTINGS 1\<rparr>)
     = Inr (after_splash\<lparr>screen := SETTINGS 1, toast := Some ''v1.0 demo'',
                          timers := [(1500, ClearToast)]\<rparr>)"
    using C9_settings_menu [where s = "after_splash\<lparr>screen := SETTINGS 1\<rparr>"] p t by simp
  have c: "confirm (after_splash\<lparr>screen := SETTINGS 2\<rparr>) = Inr (after_splash\<lparr>screen := LOCK [] 0\<rparr>)"
    using C9_settings_menu [where s = "after_splash\<lparr>screen := SETTINGS 2\<rparr>"] p by simp
  have d: "confirm (after_splash\<lparr>screen := SETTINGS 3\<rparr>)
     = Inr (after_splash\<lparr>screen := SETTINGS 3, powered := False\<rparr>)"
    using C9_settings_menu [where s = "after_splash\<lparr>screen := SETTINGS 3\<rparr>"] p by simp
  from p l a b c d show ?thesis by simp
qed

subsection \<open>The shape of the derived addresses\<close>

text \<open>For every input, \<open>pseudoHash\<close> returns exactly \<open>len\<close> characters.\<close>

lemma emit_length: "len \<le> length (emit out h1 h2 len)"
proof (induction out h1 h2 len rule: emit.induct)
  case (1 out h1 h2 len)
  show ?case
  proof (cases "length out < len")
    case True
    with 1 show ?thesis by (subst emit.simps) simp
  next
    case False
    then show ?thesis by (subst emit.simps) simp
  qed
qed

lemma length_pseudoHash: "length (pseudoHash input len) = len"
  by (simp add: pseudoHash_def emit_length split: prod.splits)

lemma address_shape:
  "address (apps ! 0) sd = ''bc1'' @ pseudoHash (sd @ '':btc'') 36"
  "address (apps ! 1) sd = ''0x'' @ pseudoHash (sd @ '':eth'') 40"
  "address (apps ! 2) sd = pseudoHash (sd @ '':sol'') 44"
  "length (address (apps ! 0) sd) = 39"
  "length (address (apps ! 1) sd) = 42"
  "length (address (apps ! 2) sd) = 44"
  by (simp_all add: apps_def length_pseudoHash)

text \<open>
  Its characters are hexadecimal digits or the minus sign: \<open>hex\<close> of a negative number
  keeps the sign that \<open>toString(16)\<close> writes.
\<close>

lemma hex_digit_alphabet: "d < 16 \<Longrightarrow> hex_digit d \<in> hex_alphabet"
proof -
  assume "d < 16"
  then have "nat d < length ''0123456789abcdef''" by simp
  then have "''0123456789abcdef'' ! nat d \<in> set ''0123456789abcdef''" by (rule nth_mem)
  then show ?thesis by (simp only: hex_digit_def hex_alphabet_def)
qed

lemma hex_digits_alphabet: "set (hex_digits n) \<subseteq> hex_alphabet"
proof (induction n rule: hex_digits.induct)
  case (1 n)
  show ?case
  proof (cases "n < 16")
    case True
    then show ?thesis by (subst hex_digits.simps) (simp add: hex_digit_alphabet)
  next
    case False
    with 1 have "set (hex_digits (n div 16)) \<subseteq> hex_alphabet" by simp
    moreover have "hex_digit (n mod 16) \<in> hex_alphabet" by (rule hex_digit_alphabet) simp
    ultimately show ?thesis using False by (subst hex_digits.simps) simp
  qed
qed

lemma zeros_alphabet: "set ''00000000'' \<subseteq> hex_alphabet"
  by (simp add: hex_alphabet_def)

lemma hex_alphabet_nonneg: "0 \<le> h \<Longrightarrow> set (hex h) \<subseteq> hex_alphabet"
proof -
  assume "0 \<le> h"
  then have "set (''00000000'' @ toString16 h) \<subseteq> hex_alphabet"
    using hex_digits_alphabet [of h] zeros_alphabet by (simp add: toString16_def)
  then show ?thesis
    unfolding hex_def Let_def using set_drop_subset by fastforce
qed

lemma hex_alphabet_any: "set (hex h) \<subseteq> insert (CHR ''-'') hex_alphabet"
proof -
  have "set (''00000000'' @ toString16 h) \<subseteq> insert (CHR ''-'') hex_alphabet"
    using hex_digits_alphabet [of h] hex_digits_alphabet [of "- h"] zeros_alphabet
    by (auto simp: toString16_def)
  then show ?thesis
    unfolding hex_def Let_def using set_drop_subset by fastforce
qed

lemma emit_alphabet:
  "set out \<subseteq> insert (CHR ''-'') hex_alphabet \<Longrightarrow>
   set (emit out h1 h2 len) \<subseteq> insert (CHR ''-'') hex_alphabet"
proof (induction out h1 h2 len rule: emit.induct)
  case (1 out h1 h2 len)
  show ?case
  proof (cases "length out < len")
    case True
    have "set (out @ hex h1 @ hex h2) \<subseteq> insert (CHR ''-'') hex_alphabet"
      using "1.prems" hex_alphabet_any [of h1] hex_alphabet_any [of h2] by simp
    with 1 True show ?thesis by (subst emit.simps) simp
  next
    case False
    with 1 show ?thesis by (subst emit.simps) simp
  qed
qed

lemma pseudoHash_alphabet: "set (pseudoHash input len) \<subseteq> insert (CHR ''-'') hex_alphabet"
proof -
  obtain h1 h2 where h: "hash_loop 0x811c9dc5 0x45d9f3b input = (h1, h2)" by force
  have "set (emit [] h1 h2 len) \<subseteq> insert (CHR ''-'') hex_alphabet"
    by (rule emit_alphabet) simp
  then have "set (take len (emit [] h1 h2 len)) \<subseteq> insert (CHR ''-'') hex_alphabet"
    using set_take_subset by fastforce
  with h show ?thesis by (simp add: pseudoHash_def)
qed

lemma minus_not_hex: "CHR ''-'' \<notin> hex_alphabet"
  by (simp add: hex_alphabet_def)

lemma btc_address_vec7amf:
  "address (apps ! 0) ''vec7amf'' = ''bc1e9a6466800000000e9a64669000000-1e9a6''"
  by code_simp

text \<open>
  Claim C5 at the seed \<open>vec7amf\<close>. The input \<open>vec7amf:btc\<close> leaves the second accumulator
  at 0, so the second block of the output is \<open>hex\<close> of -1, which is \<open>000000-1\<close>: the
  address of the first app has the prefix and the length the claim states, and one of its
  36 generated characters is a minus sign, not a hexadecimal digit.
\<close>

theorem C5_btc_address_not_hex:
  "hash_loop 0x811c9dc5 0x45d9f3b (''vec7amf'' @ '':btc'') = (3919988328, 0) \<and>
   hex (0 - 1) = ''000000-1'' \<and>
   address (apps ! 0) ''vec7amf'' = ''bc1'' @ pseudoHash (''vec7amf'' @ '':btc'') 36 \<and>
   pseudoHash (''vec7amf'' @ '':btc'') 36 = ''e9a6466800000000e9a64669000000-1e9a6'' \<and>
   length (pseudoHash (''vec7amf'' @ '':btc'') 36) = 36 \<and>
   \<not> set (pseudoHash (''vec7amf'' @ '':btc'') 36) \<subseteq> hex_alphabet"
proof -
  have a: "hash_loop 0x811c9dc5 0x45d9f3b (''vec7amf'' @ '':btc'') = (3919988328, 0)"
    by code_simp
  have b: "hex (0 - 1) = ''000000-1''"
    by code_simp
  have c: "pseudoHash (''vec7amf'' @ '':btc'') 36 = ''e9a6466800000000e9a64669000000-1e9a6''"
    by code_simp
  have d: "address (apps ! 0) ''vec7amf'' = ''bc1'' @ pseudoHash (''vec7amf'' @ '':btc'') 36"
    by (rule address_shape)
  have e: "length (pseudoHash (''vec7amf'' @ '':btc'') 36) = 36"
    by (rule length_pseudoHash)
  have f: "\<not> set (pseudoHash (''vec7amf'' @ '':btc'') 36) \<subseteq> hex_alphabet"
    unfolding c using minus_not_hex by auto
  from a b c d e f show ?thesis by blast
qed

subsection \<open>The seed\<close>

lemma js_index_mem: "js_index xs i = Some x \<Longrightarrow> x \<in> set xs"
  by (auto simp: js_index_def split: if_splits)

lemma seed_menu_action: "(l, act) \<in> set (settingsMenu s) \<Longrightarrow> seed (act t) = seed t"
  by (auto simp: settingsMenu_def state_ops)

lemma seed_confirm_click: "seed (confirm_click s) = seed s"
  by (auto simp: confirm_click_def confirm_def state_ops Let_def seed_menu_action
        dest!: js_index_mem split: Screen.splits option.splits)

lemma seed_left: "seed (left s) = seed s"
  by (simp add: left_def state_ops split: Screen.splits)

lemma seed_right: "seed (right s) = seed s"
  by (simp add: right_def state_ops split: Screen.splits)

lemma seed_back_op: "seed (back_op s) = seed s"
  by (simp add: back_op_def state_ops split: Screen.splits)

lemma seed_fire: "seed (fire i s) = seed s"
  by (simp add: fire_def run_callback_def state_ops split: callback.splits)

lemma seed_dispatch: "seed (dispatch e s) = seed s"
  by (cases e)
     (simp_all add: seed_left seed_right seed_confirm_click seed_back_op seed_fire onKey_def
        togglePower_def state_ops)

lemma seed_run: "seed (run es s) = seed s"
  by (induction es arbitrary: s) (simp_all add: seed_dispatch)

lemma seed_value: "pseudoHash ''demo-seed'' 40 = ''3de2cd987fa7fc8c3de2cd997fa7fc8b3de2cd9a''"
  by code_simp

lemma session_addresses:
  "address (apps ! 0) ''3de2cd987fa7fc8c3de2cd997fa7fc8b3de2cd9a''
     = ''bc1dadb022cd77cf550dadb022dd77cf54fdadb''"
  "address (apps ! 1) ''3de2cd987fa7fc8c3de2cd997fa7fc8b3de2cd9a''
     = ''0xf59e5d64d77cc3e6f59e5d65d77cc3e5f59e5d66''"
  "address (apps ! 2) ''3de2cd987fa7fc8c3de2cd997fa7fc8b3de2cd9a''
     = ''0a569884d7608b2b0a569885d7608b2a0a569886d760''"
  by code_simp+

lemma map_apps: "map f apps = [f (apps ! 0), f (apps ! 1), f (apps ! 2)]"
  by (simp add: apps_def)

text \<open>
  Claim C10. The seed of the initial state is \<open>pseudoHash("demo-seed")\<close> with the default
  length 40, a fixed string; no event writes the seed, so after any sequence of events it
  is that string; hence any two sessions, each a sequence of events from the initial
  state, have the same seed, the same address for every app and the same \<open>to\<close> field of
  the mock transaction, whose values are the ones given.
\<close>

theorem C10_seed_is_constant:
  "seed init = pseudoHash ''demo-seed'' 40 \<and>
   seed (dispatch e s) = seed s \<and>
   seed (run es init) = pseudoHash ''demo-seed'' 40 \<and>
   seed (run es init) = seed (run es' init) \<and>
   map (\<lambda>a. address a (seed (run es init))) apps
     = map (\<lambda>a. address a (seed (run es' init))) apps \<and>
   tx_to (seed (run es init)) = tx_to (seed (run es' init)) \<and>
   seed (run es init) = ''3de2cd987fa7fc8c3de2cd997fa7fc8b3de2cd9a'' \<and>
   map (\<lambda>a. address a (seed (run es init))) apps
     = [''bc1dadb022cd77cf550dadb022dd77cf54fdadb'',
        ''0xf59e5d64d77cc3e6f59e5d65d77cc3e5f59e5d66'',
        ''0a569884d7608b2b0a569885d7608b2a0a569886d760''] \<and>
   tx_to (seed (run es init)) = ''0xf59e5d64d77cc3e6f59e5d65d77cc3e5f59e5d66''"
proof -
  have i: "seed init = pseudoHash ''demo-seed'' 40"
    by (simp add: init_def)
  have r: "seed (run es init) = ''3de2cd987fa7fc8c3de2cd997fa7fc8b3de2cd9a''"
    and r': "seed (run es' init) = ''3de2cd987fa7fc8c3de2cd997fa7fc8b3de2cd9a''"
    by (simp_all only: seed_run i seed_value)
  have t: "tx_to ''3de2cd987fa7fc8c3de2cd997fa7fc8b3de2cd9a''
             = ''0xf59e5d64d77cc3e6f59e5d65d77cc3e5f59e5d66''"
    unfolding tx_to_def session_addresses by simp
  show ?thesis
    by (simp only: r r' t i seed_value seed_dispatch map_apps session_addresses)
qed

end
